theory Spec2Isabelle
  imports Main "HOL-Library.Sublist" "HOL-Library.Multiset"
begin

section \<open>Strings\<close>

text \<open>
  A Python \<open>str\<close> is modelled as a \<open>string\<close>, a list of characters whose codes are the
  code points below 256. The string methods used by \<open>get_RSS.py\<close> are written out on that
  range: \<open>lower\<close>, \<open>strip\<close>, \<open>startswith\<close>, \<open>split\<close> with a separator, and the
  substring test \<open>in\<close>.
\<close>

definition lower_char :: "char \<Rightarrow> char" where
  "lower_char c =
     (let n = (of_char c :: nat)
      in if (65 \<le> n \<and> n \<le> 90) \<or> (192 \<le> n \<and> n \<le> 222 \<and> n \<noteq> 215)
         then char_of (n + 32) else c)"

definition lower :: "string \<Rightarrow> string" where
  "lower s = map lower_char s"

definition is_space :: "char \<Rightarrow> bool" where
  "is_space c =
     (let n = (of_char c :: nat)
      in (9 \<le> n \<and> n \<le> 13) \<or> (28 \<le> n \<and> n \<le> 32) \<or> n = 133 \<or> n = 160)"

definition lstrip :: "string \<Rightarrow> string" where
  "lstrip s = dropWhile is_space s"

definition rstrip :: "string \<Rightarrow> string" where
  "rstrip s = rev (dropWhile is_space (rev s))"

definition strip :: "string \<Rightarrow> string" where
  "strip s = rstrip (lstrip s)"

definition startswith :: "string \<Rightarrow> string \<Rightarrow> bool" where
  "startswith s p = prefix p s"

text \<open>\<open>kw in text\<close>: \<open>kw\<close> occurs in \<open>text\<close> as a contiguous run of characters.\<close>

fun contains :: "string \<Rightarrow> string \<Rightarrow> bool" where
  "contains kw [] = (kw = [])"
| "contains kw (c # s) = (prefix kw (c # s) \<or> contains kw s)"

text \<open>
  \<open>s.split(sep)\<close> for a non-empty separator: the string is scanned from the left, every
  occurrence of \<open>sep\<close> closes the current piece and the scan resumes behind it. The
  result has one piece more than there are (non-overlapping) occurrences. \<open>acc\<close> holds the
  current piece, reversed. Python raises ValueError on an empty separator; the program
  only splits on the literals below.
\<close>

function split_from :: "string \<Rightarrow> string \<Rightarrow> string \<Rightarrow> string list" where
  "split_from sep acc [] = [rev acc]"
| "split_from sep acc (c # s) =
     (if sep \<noteq> [] \<and> prefix sep (c # s)
      then rev acc # split_from sep [] (drop (length sep) (c # s))
      else split_from sep (c # acc) s)"
  by pat_completeness auto
termination
  by (relation "measure (\<lambda>(sep, acc, s). length s)") (auto simp: neq_Nil_conv)

definition split :: "string \<Rightarrow> string \<Rightarrow> string list" where
  "split s sep = split_from sep [] s"

section \<open>Entries\<close>

text \<open>
  The dictionaries built by \<open>parse_rss\<close> and \<open>get_existing_items\<close>. \<open>pub_date\<close> is a
  point in time, counted in seconds. The key \<open>is_old\<close> is present only in entries read
  back from the output file, so it is optional.
\<close>

record entry =
  title :: string
  link :: string
  pub_date :: int
  summary :: string
  journal :: string
  id' :: string
  is_old :: "bool option"

section \<open>Query matcher\<close>

text \<open>The inner loop over \<open>and_keywords\<close>: \<open>match\<close> becomes False at the first keyword
  that is not in the text.\<close>

fun and_loop :: "string list \<Rightarrow> string \<Rightarrow> bool" where
  "and_loop [] text = True"
| "and_loop (keyword # rest) text =
     (if \<not> contains keyword text then False else and_loop rest text)"

text \<open>The inner loop over \<open>exclude_keywords\<close>: \<open>excluded\<close> becomes True at the first
  keyword that is in the text.\<close>

fun exclude_loop :: "string list \<Rightarrow> string \<Rightarrow> bool" where
  "exclude_loop [] text = False"
| "exclude_loop (exclude_kw # rest) text =
     (if contains exclude_kw text then True else exclude_loop rest text)"

fun query_loop :: "string \<Rightarrow> string list \<Rightarrow> bool" where
  "query_loop text_to_search [] = False"
| "query_loop text_to_search (query # rest) =
     (let not_parts = split query '' NOT '';
          and_part = not_parts ! 0;
          exclude_keywords =
            (if length not_parts > 1 then map (\<lambda>k. lower (strip k)) (tl not_parts) else []);
          and_keywords = map (\<lambda>k. lower (strip k)) (split and_part '' AND '');
          match = and_loop and_keywords text_to_search
      in if \<not> match then query_loop text_to_search rest
         else let excluded = exclude_loop exclude_keywords text_to_search
              in if match \<and> \<not> excluded then True
                 else query_loop text_to_search rest)"

definition match_entry :: "entry \<Rightarrow> string list \<Rightarrow> bool" where
  "match_entry entry queries =
     query_loop (lower (title entry @ '' '' @ summary entry)) queries"

section \<open>The interpreter's world\<close>

text \<open>
  What \<open>feedparser.parse\<close> hands back: either it raises, or it yields a feed object with the
  \<open>bozo\<close> flag (set when the document was not well-formed), the feed-level title and the
  entries. An entry is a dictionary; a field that is \<open>None\<close> here is a missing key, and
  \<open>dict_get\<close> is \<open>dict.get(key, default)\<close>. The two parsed dates can be present with
  the value \<open>None\<close>, hence the nested option.
\<close>

record fp_entry =
  e_title :: "string option"
  e_link :: "string option"
  published_parsed :: "int option option"
  updated_parsed :: "int option option"
  e_summary :: "string option"
  e_description :: "string option"
  e_id :: "string option"
  e_author :: "string option"

record fp_feed =
  bozo :: bool
  fp_title :: "string option"
  entries :: "fp_entry list"

datatype fp_outcome = Raises string | Parsed fp_feed

definition dict_get :: "'a option \<Rightarrow> 'a \<Rightarrow> 'a" where
  "dict_get v dflt = (case v of None \<Rightarrow> dflt | Some x \<Rightarrow> x)"

text \<open>The objects of \<open>rfeed\<close> that \<open>generate_rss_xml\<close> builds.\<close>

record item =
  item_title :: string
  item_link :: string
  description :: string
  author :: string
  guid :: string
  pubDate :: int

record feed =
  feed_title :: string
  feed_link :: string
  feed_description :: string
  language :: string
  lastBuildDate :: int
  items :: "item list"

text \<open>The lines the program prints, one constructor for each \<open>print\<close> of the source.\<close>

datatype msg =
    LoadingEnv string
  | LoadingFile string
  | Fetching string
  | ErrorParsing string string
  | LoadingExisting
  | WarningCorrupted
  | ErrorReading string
  | ErrorConfig
  | StartingFetch
  | MatchFound string
  | Added nat
  | Generated nat

text \<open>
  The state a run reads and changes: the environment variables, the text files (each as the
  lines that iterating over the open file yields, line ends included), the content of
  \<open>OUTPUT_FILE\<close> if it exists, the answers of the network (\<open>remote w url k\<close> is what
  \<open>feedparser.parse url\<close> does when it is the \<open>k\<close>-th request of the run), the clock
  read by \<open>datetime.now\<close> (local time), the time zone of the process, the requests made
  so far and the printed lines. The time zone is its standard offset from UTC in seconds
  (\<open>utc_offset\<close>, negative west of Greenwich) and the daylight saving amount in force
  at each instant (\<open>dst\<close>, 0 or 3600 for the usual zones). The content
  of the output file is of an arbitrary type \<open>'f\<close>: the serializer \<open>Feed.rss\<close> and the
  parser \<open>feedparser.parse\<close> belong to libraries and are parameters \<open>rss\<close> and \<open>fp\<close>
  of the functions that call them. \<open>time.sleep\<close> has no effect on this state.
\<close>

record 'f world =
  environ :: "string \<rightharpoonup> string"
  files :: "string \<rightharpoonup> string list"
  output_file :: "'f option"
  remote :: "string \<Rightarrow> nat \<Rightarrow> fp_outcome"
  now :: int
  utc_offset :: int
  dst :: "int \<Rightarrow> int"
  requests :: "string list"
  stdout :: "msg list"

definition print :: "msg \<Rightarrow> 'f world \<Rightarrow> 'f world" where
  "print m w = w\<lparr>stdout := stdout w @ [m]\<rparr>"

definition OUTPUT_FILE :: string where
  "OUTPUT_FILE = ''filtered_feed.xml''"

definition MAX_ITEMS :: nat where
  "MAX_ITEMS = 1000"

section \<open>Config loader\<close>

text \<open>The guard \<open>env_var_name and os.environ.get(env_var_name)\<close>: the content of the
  variable when the name is given and not empty and the variable is set and not empty.\<close>

definition env_content :: "'f world \<Rightarrow> string option \<Rightarrow> string option" where
  "env_content w env_var_name =
     (case env_var_name of
        None \<Rightarrow> None
      | Some name \<Rightarrow>
          if name = [] then None
          else (case environ w name of
                  None \<Rightarrow> None
                | Some content \<Rightarrow> if content = [] then None else Some content))"

definition load_config :: "string \<Rightarrow> string option \<Rightarrow> 'f world \<Rightarrow> string list \<times> 'f world" where
  "load_config filename env_var_name w =
     (case env_content w env_var_name of
        Some content \<Rightarrow>
          (let w1 = print (LoadingEnv (the env_var_name)) w
           in if CHR 0x0A \<in> set content
              then (map strip (filter (\<lambda>line. strip line \<noteq> []) (split content [CHR 0x0A])), w1)
              else (map strip (filter (\<lambda>line. strip line \<noteq> []) (split content '';'')), w1))
      | None \<Rightarrow>
          (case files w filename of
             Some f \<Rightarrow>
               (map strip (filter (\<lambda>line. strip line \<noteq> [] \<and> \<not> startswith line ''#'') f),
                print (LoadingFile filename) w)
           | None \<Rightarrow> ([], w)))"

section \<open>Text cleanup\<close>

text \<open>The character class \<open>[\x00-\x08\x0b\x0c\x0e-\x1f]\<close>.\<close>

definition illegal_char :: "char \<Rightarrow> bool" where
  "illegal_char c =
     (let n = (of_char c :: nat)
      in (0 \<le> n \<and> n \<le> 8) \<or> n = 11 \<or> n = 12 \<or> (14 \<le> n \<and> n \<le> 31))"

text \<open>\<open>re.sub(illegal_chars, '', text)\<close>: every match of the class is replaced by nothing.\<close>

fun sub_illegal :: "string \<Rightarrow> string" where
  "sub_illegal [] = []"
| "sub_illegal (c # s) = (if illegal_char c then sub_illegal s else c # sub_illegal s)"

definition remove_illegal_xml_chars :: "string \<Rightarrow> string" where
  "remove_illegal_xml_chars text = (if text = [] then [] else sub_illegal text)"

section \<open>Fetching and reading back\<close>

text \<open>
  Points in time are counted in seconds: a \<open>struct_time\<close> or a naive \<open>datetime\<close> is the
  number of seconds from 1970-01-01 00:00:00 to the date and time its fields show. The
  parser's \<open>struct_time\<close> shows UTC and has \<open>tm_isdst = 0\<close>.

  \<open>time.mktime\<close> reads the fields as local standard time (\<open>tm_isdst = 0\<close>) and gives
  the instant, in seconds since the epoch; it does not raise on the years 1 to 9999 that
  a \<open>struct_time\<close> of the parser shows. \<open>datetime.fromtimestamp\<close> shows an instant in
  local time, daylight saving included. It raises ValueError when the year is not within
  1 to 9999; it also looks at the instant one day earlier (to find a repeated hour), so
  the first day of year 1 is refused as well.
\<close>

definition DATETIME_MIN :: int where
  "DATETIME_MIN = - 62135596800"

definition DATETIME_MAX :: int where
  "DATETIME_MAX = 253402300799"

definition mktime :: "'f world \<Rightarrow> int \<Rightarrow> int" where
  "mktime w struct_time = struct_time - utc_offset w"

definition local_time :: "'f world \<Rightarrow> int \<Rightarrow> int" where
  "local_time w t = t + utc_offset w + dst w t"

definition fromtimestamp :: "'f world \<Rightarrow> int \<Rightarrow> string + int" where
  "fromtimestamp w t =
     (if local_time w t < DATETIME_MIN \<or> DATETIME_MAX < local_time w t \<or>
         local_time w (t - 86400) < DATETIME_MIN
      then Inl ''ValueError'' else Inr (local_time w t))"

definition convert_struct_time_to_datetime :: "int option \<Rightarrow> 'f world \<Rightarrow> string + int" where
  "convert_struct_time_to_datetime struct_time w =
     (case struct_time of
        None \<Rightarrow> Inr (now w)
      | Some t \<Rightarrow> fromtimestamp w (mktime w t))"

text \<open>A loop that appends one converted element per element of a list: the first
  conversion that raises ends it with that exception.\<close>

fun collect :: "('a \<Rightarrow> string + 'b) \<Rightarrow> 'a list \<Rightarrow> string + 'b list" where
  "collect f [] = Inr []"
| "collect f (x # xs) =
     (case f x of
        Inl err \<Rightarrow> Inl err
      | Inr y \<Rightarrow> (case collect f xs of Inl err \<Rightarrow> Inl err | Inr ys \<Rightarrow> Inr (y # ys)))"

definition fetched_entry :: "string \<Rightarrow> 'f world \<Rightarrow> fp_entry \<Rightarrow> string + entry" where
  "fetched_entry journal_title w e =
     (case convert_struct_time_to_datetime
             (dict_get (published_parsed e) (dict_get (updated_parsed e) None)) w of
        Inl err \<Rightarrow> Inl err
      | Inr date \<Rightarrow>
          Inr \<lparr>title = dict_get (e_title e) [],
               link = dict_get (e_link e) [],
               pub_date = date,
               summary = dict_get (e_summary e) (dict_get (e_description e) []),
               journal = journal_title,
               id' = dict_get (e_id e) (dict_get (e_link e) []),
               is_old = None\<rparr>)"

text \<open>The loop \<open>for attempt in range(retries)\<close>: an attempt that raises, in the request or
  while the entries are converted, is printed and followed by the next attempt; the first
  attempt that does not raise gives the entries, and when all raise the result is
  empty.\<close>

fun parse_rss_loop :: "string \<Rightarrow> nat \<Rightarrow> 'f world \<Rightarrow> entry list \<times> 'f world" where
  "parse_rss_loop rss_url 0 w = ([], w)"
| "parse_rss_loop rss_url (Suc n) w =
     (let w1 = w\<lparr>requests := requests w @ [rss_url]\<rparr>
      in case remote w rss_url (length (requests w)) of
           Parsed feed \<Rightarrow>
             (case collect (fetched_entry (dict_get (fp_title feed) ''Unknown Journal'') w1)
                     (entries feed) of
                Inr fetched \<Rightarrow> (fetched, w1)
              | Inl e \<Rightarrow> parse_rss_loop rss_url n (print (ErrorParsing rss_url e) w1))
         | Raises e \<Rightarrow> parse_rss_loop rss_url n (print (ErrorParsing rss_url e) w1))"

definition parse_rss :: "string \<Rightarrow> 'f world \<Rightarrow> entry list \<times> 'f world" where
  "parse_rss rss_url w = parse_rss_loop rss_url 3 (print (Fetching rss_url) w)"

definition existing_entry :: "'f world \<Rightarrow> fp_entry \<Rightarrow> string + entry" where
  "existing_entry w e =
     (case convert_struct_time_to_datetime (dict_get (published_parsed e) None) w of
        Inl err \<Rightarrow> Inl err
      | Inr date \<Rightarrow>
          Inr \<lparr>title = dict_get (e_title e) [],
               link = dict_get (e_link e) [],
               pub_date = date,
               summary = dict_get (e_summary e) [],
               journal = dict_get (e_author e) [],
               id' = dict_get (e_id e) (dict_get (e_link e) []),
               is_old = Some True\<rparr>)"

text \<open>The \<open>try\<close> block covers the parse and the loop over the entries: whatever raises in
  it is printed and the result is empty.\<close>

definition get_existing_items :: "('f \<Rightarrow> fp_outcome) \<Rightarrow> 'f world \<Rightarrow> entry list \<times> 'f world" where
  "get_existing_items fp w =
     (case output_file w of
        None \<Rightarrow> ([], w)
      | Some content \<Rightarrow>
          (let w1 = print LoadingExisting w
           in case fp content of
                Raises e \<Rightarrow> ([], print (ErrorReading e) w1)
              | Parsed feed \<Rightarrow>
                  (let w2 = (if bozo feed then print WarningCorrupted w1 else w1)
                   in case collect (existing_entry w2) (entries feed) of
                        Inr existing \<Rightarrow> (existing, w2)
                      | Inl e \<Rightarrow> ([], print (ErrorReading e) w2))))"

section \<open>Feed writer\<close>

text \<open>\<open>items.sort(key=lambda x: x['pub_date'], reverse=True)\<close>: Python's sort is stable,
  also with \<open>reverse=True\<close>, so the result is the one stable arrangement by descending
  \<open>pub_date\<close>; \<open>sort_key\<close> on the negated date computes it.\<close>

definition sort_by_pub_date :: "entry list \<Rightarrow> entry list" where
  "sort_by_pub_date entries0 = sort_key (\<lambda>x. - pub_date x) entries0"

text \<open>The list \<open>items\<close> after \<open>items = items[:MAX_ITEMS]\<close>. (The parameter \<open>items\<close> of the
  source is called \<open>entries0\<close> here, \<open>items\<close> being the field of the feed object.)\<close>

definition kept_items :: "entry list \<Rightarrow> entry list" where
  "kept_items entries0 = take MAX_ITEMS (sort_by_pub_date entries0)"

definition rss_item :: "entry \<Rightarrow> item" where
  "rss_item item =
     (let title0 = title item;
          title1 = (if \<not> dict_get (is_old item) False
                    then ''['' @ journal item @ ''] '' @ title item else title0);
          clean_title = remove_illegal_xml_chars title1;
          clean_summary = remove_illegal_xml_chars (summary item);
          clean_journal = remove_illegal_xml_chars (journal item)
      in \<lparr>item_title = clean_title,
          item_link = link item,
          description = clean_summary,
          author = clean_journal,
          guid = id' item,
          pubDate = pub_date item\<rparr>)"

definition build_feed :: "entry list \<Rightarrow> 'f world \<Rightarrow> feed" where
  "build_feed entries0 w =
     \<lparr>feed_title = ''Medical Image Segmentation Papers'',
      feed_link = ''https://github.com/Nafsae/paper-feed'',
      feed_description = ''Aggregated medical image segmentation research papers'',
      language = ''en-US'',
      lastBuildDate = now w,
      items = map rss_item (kept_items entries0)\<rparr>"

definition generate_rss_xml :: "(feed \<Rightarrow> 'f) \<Rightarrow> entry list \<Rightarrow> 'f world \<Rightarrow> 'f world" where
  "generate_rss_xml rss entries0 w =
     (let feed = build_feed entries0 w
      in print (Generated (length (items feed))) (w\<lparr>output_file := Some (rss feed)\<rparr>))"

section \<open>Aggregator and main\<close>

text \<open>The loop over the entries of one journal. The state is \<open>seen_ids\<close>,
  \<open>all_entries\<close>, \<open>new_count\<close> and the world.\<close>

type_synonym 'f agg = "string set \<times> entry list \<times> nat \<times> 'f world"

fun entry_loop :: "string list \<Rightarrow> entry list \<Rightarrow> 'f agg \<Rightarrow> 'f agg" where
  "entry_loop queries [] st = st"
| "entry_loop queries (entry # rest) (seen_ids, all_entries, new_count, w) =
     (if id' entry \<in> seen_ids then entry_loop queries rest (seen_ids, all_entries, new_count, w)
      else if match_entry entry queries
      then entry_loop queries rest
             (insert (id' entry) seen_ids, all_entries @ [entry], new_count + 1,
              print (MatchFound (take 50 (title entry))) w)
      else entry_loop queries rest (seen_ids, all_entries, new_count, w))"

fun url_loop :: "string list \<Rightarrow> string list \<Rightarrow> 'f agg \<Rightarrow> 'f agg" where
  "url_loop queries [] st = st"
| "url_loop queries (url # rest) (seen_ids, all_entries, new_count, w) =
     (case parse_rss url w of
        (fetched_entries, w1) \<Rightarrow>
          url_loop queries rest
            (entry_loop queries fetched_entries (seen_ids, all_entries, new_count, w1)))"

definition main :: "(feed \<Rightarrow> 'f) \<Rightarrow> ('f \<Rightarrow> fp_outcome) \<Rightarrow> 'f world \<Rightarrow> 'f world" where
  "main rss fp w =
     (case load_config ''journals.dat'' (Some ''RSS_JOURNALS'') w of
        (rss_urls, w1) \<Rightarrow>
     (case load_config ''keywords.dat'' (Some ''RSS_KEYWORDS'') w1 of
        (queries, w2) \<Rightarrow>
     if rss_urls = [] \<or> queries = [] then print ErrorConfig w2
     else
       (case get_existing_items fp w2 of
          (existing_entries, w3) \<Rightarrow>
       (case url_loop queries rss_urls
               (set (map id' existing_entries), existing_entries, 0, print StartingFetch w3) of
          (seen_ids, all_entries, new_count, w4) \<Rightarrow>
            generate_rss_xml rss all_entries (print (Added new_count) w4)))))"

text \<open>Two worlds that agree on everything a run reads: they may differ in the requests
  made and in the printed lines only.\<close>

definition same_inputs :: "'f world \<Rightarrow> 'f world \<Rightarrow> bool" where
  "same_inputs w w' =
     (environ w' = environ w \<and> files w' = files w \<and> output_file w' = output_file w \<and>
      remote w' = remote w \<and> now w' = now w \<and> utc_offset w' = utc_offset w \<and>
      dst w' = dst w)"

section \<open>Example worlds\<close>

text \<open>A parser for a world whose output file holds the feed object itself (the serializer
  is the identity): it hands every field of every item back as it was written.\<close>

definition read_back :: "feed \<Rightarrow> fp_outcome" where
  "read_back f =
     Parsed \<lparr>bozo = False, fp_title = Some (feed_title f),
             entries = map (\<lambda>it. \<lparr>e_title = Some (item_title it), e_link = Some (item_link it),
                                   published_parsed = Some (Some (pubDate it)),
                                   updated_parsed = None,
                                   e_summary = Some (description it), e_description = None,
                                   e_id = Some (guid it), e_author = Some (author it)\<rparr>)
                           (items f)\<rparr>"

text \<open>An example: one journal whose feed has two entries, one of which matches the one
  query; no output file yet.\<close>

definition example_remote :: "string \<Rightarrow> nat \<Rightarrow> fp_outcome" where
  "example_remote url k =
     Parsed \<lparr>bozo = False, fp_title = Some ''Nature'',
             entries =
               [\<lparr>e_title = Some ''Brain scan'', e_link = Some ''http://n/1'',
                 published_parsed = Some (Some 10), updated_parsed = None,
                 e_summary = Some ''MRI'', e_description = None,
                 e_id = Some ''i1'', e_author = None\<rparr>,
                \<lparr>e_title = Some ''Galaxies'', e_link = Some ''http://n/2'',
                 published_parsed = Some (Some 20), updated_parsed = None,
                 e_summary = Some ''far away'', e_description = None,
                 e_id = Some ''i2'', e_author = None\<rparr>]\<rparr>"

definition example_world :: "feed world" where
  "example_world =
     \<lparr>environ = [''RSS_JOURNALS'' \<mapsto> ''http://n/feed'', ''RSS_KEYWORDS'' \<mapsto> ''brain''],
      files = Map.empty, output_file = None, remote = example_remote, now = 50, utc_offset = 0, dst = (\<lambda>t. 0),
      requests = [], stdout = []\<rparr>"

text \<open>
  The same journal seen from New York in the summer of 2024: standard time is five hours
  behind UTC, and daylight saving time was in force from 2024-03-10 07:00:00 UTC
  (1710054000) to 2024-11-03 06:00:00 UTC (1730613600). The feed has one entry, which
  matches the query and is dated 2024-07-01 10:00:00 (1719828000).
\<close>

definition new_york_dst :: "int \<Rightarrow> int" where
  "new_york_dst t = (if 1710054000 \<le> t \<and> t < 1730613600 then 3600 else 0)"

definition summer_remote :: "string \<Rightarrow> nat \<Rightarrow> fp_outcome" where
  "summer_remote url k =
     Parsed \<lparr>bozo = False, fp_title = Some ''Nature'',
             entries =
               [\<lparr>e_title = Some ''Brain scan'', e_link = Some ''http://n/1'',
                 published_parsed = Some (Some 1719828000), updated_parsed = None,
                 e_summary = Some ''MRI'', e_description = None,
                 e_id = Some ''i1'', e_author = None\<rparr>]\<rparr>"

definition summer_world :: "feed world" where
  "summer_world =
     \<lparr>environ = [''RSS_JOURNALS'' \<mapsto> ''http://n/feed'', ''RSS_KEYWORDS'' \<mapsto> ''brain''],
      files = Map.empty, output_file = None, remote = summer_remote, now = 1720000000,
      utc_offset = - 18000, dst = new_york_dst, requests = [], stdout = []\<rparr>"

section \<open>Properties of the string functions\<close>

lemma contains_sublist: "contains kw s = sublist kw s"
  by (induction s) (auto simp: sublist_Cons_right)

lemma split_from_nonempty: "split_from sep acc s \<noteq> []"
  by (induction sep acc s rule: split_from.induct) auto

lemma split_nonempty: "split s sep \<noteq> []"
  by (simp add: split_def split_from_nonempty)

lemma and_loop_all: "and_loop ks t = (\<forall>k \<in> set ks. contains k t)"
  by (induction ks) auto

lemma exclude_loop_ex: "exclude_loop ks t = (\<exists>k \<in> set ks. contains k t)"
  by (induction ks) auto

lemma lower_Nil: "lower [] = []"
  by (simp add: lower_def)

lemma split_empty: "split [] sep = [[]]"
  by (simp add: split_def)

lemma strip_Nil: "strip [] = []"
  by (simp add: strip_def lstrip_def rstrip_def)

section \<open>The query matcher decides the query language\<close>

text \<open>One round of the loop over the queries: \<open>split\<close> never returns the empty list, so
  \<open>not_parts[0]\<close> is the head and the guard \<open>len(not_parts) > 1\<close> changes nothing.\<close>

lemma query_loop_Cons:
  "query_loop t (q # qs) =
     ((and_loop (map (\<lambda>k. lower (strip k)) (split (hd (split q '' NOT '')) '' AND '')) t \<and>
       \<not> exclude_loop (map (\<lambda>k. lower (strip k)) (tl (split q '' NOT ''))) t)
      \<or> query_loop t qs)"
proof -
  have ne: "split q '' NOT '' \<noteq> []" by (rule split_nonempty)
  then have hd0: "split q '' NOT '' ! 0 = hd (split q '' NOT '')"
    by (simp add: hd_conv_nth)
  have tl0: "(if length (split q '' NOT '') > 1 then map (\<lambda>k. lower (strip k)) (tl (split q '' NOT '')) else [])
      = map (\<lambda>k. lower (strip k)) (tl (split q '' NOT ''))"
    using ne by (cases "split q '' NOT ''") (auto simp: Suc_lessI)
  show ?thesis
    unfolding query_loop.simps Let_def hd0 tl0 by auto
qed

lemma query_loop_iff:
  "query_loop t qs =
     (\<exists>q \<in> set qs.
        (\<forall>k \<in> set (split (hd (split q '' NOT '')) '' AND ''). sublist (lower (strip k)) t) \<and>
        (\<forall>k \<in> set (tl (split q '' NOT '')). \<not> sublist (lower (strip k)) t))"
proof (induction qs)
  case Nil
  show ?case by simp
next
  case (Cons q qs)
  show ?case
    unfolding query_loop_Cons Cons.IH
    by (auto simp: and_loop_all exclude_loop_ex contains_sublist)
qed

text \<open>
  Claim C1. For every entry and every list of queries, \<open>match_entry\<close> returns true if and
  only if some query of the list satisfies both conditions over the lowercased text
  \<open>title + " " + summary\<close>: every AND-term (the pieces, split on \<open>" AND "\<close>, of the
  segment before the first \<open>" NOT "\<close>, each trimmed and lowercased) is a substring of the
  text, and no excluded term (each later segment, trimmed and lowercased) is one.
  \<open>sublist\<close> is the contiguous-substring relation of the library.
\<close>

theorem match_entry_iff:
  "match_entry entry queries =
     (\<exists>query \<in> set queries.
        (\<forall>k \<in> set (split (hd (split query '' NOT '')) '' AND '').
            sublist (lower (strip k)) (lower (title entry @ '' '' @ summary entry))) \<and>
        (\<forall>k \<in> set (tl (split query '' NOT '')).
            \<not> sublist (lower (strip k)) (lower (title entry @ '' '' @ summary entry))))"
  unfolding match_entry_def by (rule query_loop_iff)

theorem match_entry_iff_witness:
  "\<exists>query \<in> set [''brain AND tumor NOT benign''].
        (\<forall>k \<in> set (split (hd (split query '' NOT '')) '' AND '').
            sublist (lower (strip k))
              (lower (title \<lparr>title = ''Brain Tumor'', link = [], pub_date = 0, summary = ''MRI study'',
                       journal = ''Nature'', id' = ''a1'', is_old = None\<rparr> @ '' '' @
                      summary \<lparr>title = ''Brain Tumor'', link = [], pub_date = 0, summary = ''MRI study'',
                       journal = ''Nature'', id' = ''a1'', is_old = None\<rparr>))) \<and>
        (\<forall>k \<in> set (tl (split query '' NOT '')).
            \<not> sublist (lower (strip k))
              (lower (title \<lparr>title = ''Brain Tumor'', link = [], pub_date = 0, summary = ''MRI study'',
                       journal = ''Nature'', id' = ''a1'', is_old = None\<rparr> @ '' '' @
                      summary \<lparr>title = ''Brain Tumor'', link = [], pub_date = 0, summary = ''MRI study'',
                       journal = ''Nature'', id' = ''a1'', is_old = None\<rparr>)))"
proof -
  have "match_entry \<lparr>title = ''Brain Tumor'', link = [], pub_date = 0, summary = ''MRI study'',
          journal = ''Nature'', id' = ''a1'', is_old = None\<rparr> [''brain AND tumor NOT benign'']"
    by code_simp
  then show ?thesis by (rule iffD1 [OF match_entry_iff])
qed

text \<open>
  Claim C10, as amended. \<open>match_entry\<close> returns true for every entry whenever the list
  of queries contains the empty string, or any query without a \<open>" NOT "\<close> separator all
  of whose AND-terms trim to the empty string (such as \<open>" AND "\<close>): the empty string is a
  substring of every text and such a query excludes nothing.
\<close>

theorem blank_query_matches:
  "([] \<in> set queries \<longrightarrow> match_entry entry queries) \<and>
   ((\<exists>query \<in> set queries.
        tl (split query '' NOT '') = [] \<and>
        (\<forall>k \<in> set (split (hd (split query '' NOT '')) '' AND ''). strip k = []))
     \<longrightarrow> match_entry entry queries)"
proof -
  have general: "match_entry entry queries"
    if "query \<in> set queries" "tl (split query '' NOT '') = []"
       "\<forall>k \<in> set (split (hd (split query '' NOT '')) '' AND ''). strip k = []" for query
    unfolding match_entry_def query_loop_iff
    using that by (intro bexI [of _ query]) (auto simp: lower_Nil)
  have "match_entry entry queries" if "[] \<in> set queries"
    using general [OF that] by (simp add: split_empty strip_Nil)
  with general show ?thesis by blast
qed

theorem blank_query_matches_witness:
  "[] \<in> set ['''', '' AND ''] \<and>
   (\<exists>query \<in> set ['''', '' AND ''].
        tl (split query '' NOT '') = [] \<and>
        (\<forall>k \<in> set (split (hd (split query '' NOT '')) '' AND ''). strip k = [])) \<and>
   match_entry \<lparr>title = ''Foo'', link = [], pub_date = 0, summary = ''bar'',
      journal = ''Nature'', id' = ''a1'', is_old = None\<rparr> ['''', '' AND '']"
proof -
  have a: "[] \<in> set ['''', '' AND '']" by simp
  have s: "split '' AND '' '' NOT '' = ['' AND '']" "split '' AND '' '' AND '' = ['''', '''']"
    by code_simp+
  have b: "\<exists>query \<in> set ['''', '' AND ''].
        tl (split query '' NOT '') = [] \<and>
        (\<forall>k \<in> set (split (hd (split query '' NOT '')) '' AND ''). strip k = [])"
    by (rule bexI [of _ "'' AND ''"]) (simp_all add: s strip_Nil)
  from a b blank_query_matches [of "['''', '' AND '']"] show ?thesis by blast
qed

text \<open>
  The claim as first stated also promised a match for any query one of whose AND-terms
  trims to the empty string. The query \<open>"zzz AND "\<close> has the terms \<open>"zzz"\<close> and the
  empty string, and an entry without \<open>"zzz"\<close> in its text does not match it.
\<close>

theorem blank_term_counterexample:
  "strip (split (hd (split ''zzz AND '' '' NOT '')) '' AND '' ! 1) = [] \<and>
   \<not> match_entry \<lparr>title = ''abc'', link = [], pub_date = 0, summary = [],
      journal = ''Nature'', id' = ''a1'', is_old = None\<rparr> [''zzz AND '']"
  by code_simp

section \<open>The feed writer cleans and titles its items\<close>

lemma sub_illegal_filter: "sub_illegal s = filter (\<lambda>c. \<not> illegal_char c) s"
  by (induction s) auto

lemma remove_illegal_filter: "remove_illegal_xml_chars s = filter (\<lambda>c. \<not> illegal_char c) s"
  by (simp add: remove_illegal_xml_chars_def sub_illegal_filter)

lemma illegal_char_ranges:
  "illegal_char c = (of_char c \<in> ({0..8} \<union> {11, 12} \<union> {14..31} :: nat set))"
  by (auto simp: illegal_char_def Let_def)

lemma rss_item_fields:
  "item_title (rss_item e) =
     remove_illegal_xml_chars
       (if \<not> dict_get (is_old e) False then ''['' @ journal e @ ''] '' @ title e else title e)"
  "description (rss_item e) = remove_illegal_xml_chars (summary e)"
  "author (rss_item e) = remove_illegal_xml_chars (journal e)"
  "item_link (rss_item e) = link e"
  "guid (rss_item e) = id' e"
  "pubDate (rss_item e) = pub_date e"
  by (simp_all add: rss_item_def Let_def)

lemma items_build_feed: "items (build_feed es w) = map rss_item (kept_items es)"
  by (simp add: build_feed_def)

text \<open>
  Claim C8. For every string, \<open>remove_illegal_xml_chars\<close> returns the string with exactly
  the characters of the ranges 0x00 to 0x08, 0x0B, 0x0C and 0x0E to 0x1F deleted, and the
  title, the description (the summary) and the author (the journal) of every item of the
  feed that \<open>generate_rss_xml\<close> serializes went through it, so none of these
  characters occurs in those fields.
\<close>

theorem remove_illegal_xml_chars_exact:
  "remove_illegal_xml_chars text =
     filter (\<lambda>c. of_char c \<notin> ({0..8} \<union> {11, 12} \<union> {14..31} :: nat set)) text \<and>
   (\<forall>it \<in> set (items (build_feed entries0 w)).
      \<forall>c \<in> set (item_title it) \<union> set (description it) \<union> set (author it).
        of_char c \<notin> ({0..8} \<union> {11, 12} \<union> {14..31} :: nat set))"
proof
  show "remove_illegal_xml_chars text =
     filter (\<lambda>c. of_char c \<notin> ({0..8} \<union> {11, 12} \<union> {14..31} :: nat set)) text"
    unfolding remove_illegal_filter illegal_char_ranges ..
next
  have clean: "\<not> illegal_char c" if "c \<in> set (remove_illegal_xml_chars s)" for c s
    using that by (simp add: remove_illegal_filter)
  show "\<forall>it \<in> set (items (build_feed entries0 w)).
      \<forall>c \<in> set (item_title it) \<union> set (description it) \<union> set (author it).
        of_char c \<notin> ({0..8} \<union> {11, 12} \<union> {14..31} :: nat set)"
    unfolding items_build_feed illegal_char_ranges [symmetric]
    by (auto simp: rss_item_fields dest: clean)
qed

theorem remove_illegal_xml_chars_exact_witness:
  "remove_illegal_xml_chars [CHR 0x01, CHR ''F'', CHR 0x0B, CHR ''o'', CHR 0x1F, CHR ''o'', CHR 0x09]
     = [CHR ''F'', CHR ''o'', CHR ''o'', CHR 0x09] \<and>
   items (build_feed [\<lparr>title = [CHR 0x01, CHR ''F'', CHR ''o'', CHR ''o''], link = [], pub_date = 0,
             summary = [CHR ''a'', CHR 0x0B], journal = ''Nature'', id' = ''a1'', is_old = None\<rparr>]
           \<lparr>environ = Map.empty, files = Map.empty, output_file = None :: feed option,
            remote = (\<lambda>url k. Raises []), now = 0, utc_offset = 0, dst = (\<lambda>t. 0), requests = [], stdout = []\<rparr>)
     = [\<lparr>item_title = ''[Nature] Foo'', item_link = [], description = ''a'', author = ''Nature'',
         guid = ''a1'', pubDate = 0\<rparr>]"
proof
  show "remove_illegal_xml_chars [CHR 0x01, CHR ''F'', CHR 0x0B, CHR ''o'', CHR 0x1F, CHR ''o'', CHR 0x09]
     = [CHR ''F'', CHR ''o'', CHR ''o'', CHR 0x09]"
    using conjunct1 [OF remove_illegal_xml_chars_exact,
        of "[CHR 0x01, CHR ''F'', CHR 0x0B, CHR ''o'', CHR 0x1F, CHR ''o'', CHR 0x09]"]
    by simp
next
  show "items (build_feed [\<lparr>title = [CHR 0x01, CHR ''F'', CHR ''o'', CHR ''o''], link = [], pub_date = 0,
             summary = [CHR ''a'', CHR 0x0B], journal = ''Nature'', id' = ''a1'', is_old = None\<rparr>]
           \<lparr>environ = Map.empty, files = Map.empty, output_file = None :: feed option,
            remote = (\<lambda>url k. Raises []), now = 0, utc_offset = 0, dst = (\<lambda>t. 0), requests = [], stdout = []\<rparr>)
     = [\<lparr>item_title = ''[Nature] Foo'', item_link = [], description = ''a'', author = ''Nature'',
         guid = ''a1'', pubDate = 0\<rparr>]"
    by code_simp
qed

lemma remove_illegal_id: "\<forall>c \<in> set s. \<not> illegal_char c \<Longrightarrow> remove_illegal_xml_chars s = s"
  by (simp add: remove_illegal_filter)

lemma bracket_legal: "\<not> illegal_char CHR ''[''" "\<not> illegal_char CHR '']''" "\<not> illegal_char CHR '' ''"
  by (simp_all add: illegal_char_def)

text \<open>
  Claim C7, as amended. For every entry serialized by the feed writer: if \<open>is_old\<close> is
  false or absent, the output title is \<open>"[" + journal + "] " + title\<close> with the illegal
  control characters removed; if \<open>is_old\<close> is true, it is the title with the illegal
  control characters removed. Where journal and title hold no such character, the output
  title is exactly \<open>"[" + journal + "] " + title\<close>, respectively the title unchanged.
\<close>

theorem output_title:
  "(is_old e \<noteq> Some True \<longrightarrow>
      item_title (rss_item e) = remove_illegal_xml_chars (''['' @ journal e @ ''] '' @ title e) \<and>
      ((\<forall>c \<in> set (journal e) \<union> set (title e). \<not> illegal_char c) \<longrightarrow>
         item_title (rss_item e) = ''['' @ journal e @ ''] '' @ title e)) \<and>
   (is_old e = Some True \<longrightarrow>
      item_title (rss_item e) = remove_illegal_xml_chars (title e) \<and>
      ((\<forall>c \<in> set (title e). \<not> illegal_char c) \<longrightarrow> item_title (rss_item e) = title e))"
proof (cases "is_old e = Some True")
  case True
  then show ?thesis
    by (simp add: rss_item_fields dict_get_def remove_illegal_id)
next
  case False
  then have f: "\<not> dict_get (is_old e) False"
    by (cases "is_old e") (auto simp: dict_get_def)
  show ?thesis using False
    by (auto simp: rss_item_fields f bracket_legal intro!: remove_illegal_id)
qed

theorem output_title_witness:
  "is_old \<lparr>title = ''Foo'', link = [], pub_date = 0, summary = [], journal = ''Nature'',
           id' = ''a1'', is_old = None\<rparr> \<noteq> Some True \<and>
   item_title (rss_item \<lparr>title = ''Foo'', link = [], pub_date = 0, summary = [], journal = ''Nature'',
           id' = ''a1'', is_old = None\<rparr>) = ''[Nature] Foo'' \<and>
   is_old \<lparr>title = ''[Nature] Foo'', link = [], pub_date = 0, summary = [], journal = ''Nature'',
           id' = ''a1'', is_old = Some True\<rparr> = Some True \<and>
   item_title (rss_item \<lparr>title = ''[Nature] Foo'', link = [], pub_date = 0, summary = [],
           journal = ''Nature'', id' = ''a1'', is_old = Some True\<rparr>) = ''[Nature] Foo''"
proof -
  have l1: "\<forall>c \<in> set ''Nature'' \<union> set ''Foo''. \<not> illegal_char c"
    by (simp add: illegal_char_def)
  have l2: "\<forall>c \<in> set ''[Nature] Foo''. \<not> illegal_char c"
    by (simp add: illegal_char_def)
  show ?thesis
    using l1 l2
      output_title [of "\<lparr>title = ''Foo'', link = [], pub_date = 0, summary = [], journal = ''Nature'',
           id' = ''a1'', is_old = None\<rparr>"]
      output_title [of "\<lparr>title = ''[Nature] Foo'', link = [], pub_date = 0, summary = [],
           journal = ''Nature'', id' = ''a1'', is_old = Some True\<rparr>"]
    by (simp add: remove_illegal_filter)
qed

text \<open>
  The title goes through \<open>remove_illegal_xml_chars\<close> after the prefix is put in front, so
  the output title of a fresh entry whose title holds the character 0x01 is not
  \<open>"[" + journal + "] " + title\<close>.
\<close>

theorem output_title_counterexample:
  "item_title (rss_item \<lparr>title = [CHR 0x01, CHR ''F'', CHR ''o'', CHR ''o''], link = [], pub_date = 0,
        summary = [], journal = ''Nature'', id' = ''a1'', is_old = Some False\<rparr>)
   \<noteq> ''['' @ ''Nature'' @ ''] '' @ [CHR 0x01, CHR ''F'', CHR ''o'', CHR ''o'']"
  by code_simp

section \<open>The feed writer keeps the most recent entries\<close>


lemma mset_sort_by_pub_date: "mset (sort_by_pub_date xs) = mset xs"
  by (simp add: sort_by_pub_date_def)









text \<open>The order on a small input: descending dates, entries of equal date in the order
  they came in.\<close>

lemma sort_example:
  "map guid (items (build_feed
      [\<lparr>title = ''A'', link = [], pub_date = 5, summary = [], journal = ''J'', id' = ''a'', is_old = None\<rparr>,
       \<lparr>title = ''B'', link = [], pub_date = 9, summary = [], journal = ''J'', id' = ''b'', is_old = None\<rparr>,
       \<lparr>title = ''C'', link = [], pub_date = 5, summary = [], journal = ''J'', id' = ''c'', is_old = None\<rparr>,
       \<lparr>title = ''D'', link = [], pub_date = 7, summary = [], journal = ''J'', id' = ''d'', is_old = None\<rparr>]
      \<lparr>environ = Map.empty, files = Map.empty, output_file = None :: feed option,
            remote = (\<lambda>url k. Raises []), now = 0, utc_offset = 0, dst = (\<lambda>t. 0), requests = [], stdout = []\<rparr>))
   = [''b'', ''d'', ''a'', ''c'']"
  by code_simp

section \<open>Reading back a damaged output file\<close>

text \<open>
  Claim C4 says that \<open>get_existing_items\<close>, on an output file that exists but is malformed,
  prints a warning and returns no entries. The source prints the warning (its text ends
  with "Ignoring old items.") when \<open>feedparser\<close> sets \<open>bozo\<close>, and then goes on to
  convert \<open>feed.entries\<close> all the same. On a file for which the parser reports
  \<open>bozo\<close> together with one recovered entry, the warning is printed and the entry is
  returned.
\<close>

theorem get_existing_items_bozo:
  "get_existing_items Parsed
     \<lparr>environ = Map.empty, files = Map.empty,
      output_file = Some \<lparr>bozo = True, fp_title = None,
         entries = [\<lparr>e_title = Some ''[Nature] Foo'', e_link = Some ''http://x/1'',
                     published_parsed = Some (Some 100), updated_parsed = None,
                     e_summary = Some ''s'', e_description = None, e_id = Some ''id1'',
                     e_author = Some ''Nature''\<rparr>]\<rparr>,
      remote = (\<lambda>url k. Raises []), now = 0, utc_offset = 0, dst = (\<lambda>t. 0), requests = [], stdout = []\<rparr>
   = ([\<lparr>title = ''[Nature] Foo'', link = ''http://x/1'', pub_date = 100, summary = ''s'',
        journal = ''Nature'', id' = ''id1'', is_old = Some True\<rparr>],
      \<lparr>environ = Map.empty, files = Map.empty,
      output_file = Some \<lparr>bozo = True, fp_title = None,
         entries = [\<lparr>e_title = Some ''[Nature] Foo'', e_link = Some ''http://x/1'',
                     published_parsed = Some (Some 100), updated_parsed = None,
                     e_summary = Some ''s'', e_description = None, e_id = Some ''id1'',
                     e_author = Some ''Nature''\<rparr>]\<rparr>,
      remote = (\<lambda>url k. Raises []), now = 0, utc_offset = 0, dst = (\<lambda>t. 0), requests = [],
      stdout = [LoadingExisting, WarningCorrupted]\<rparr>)"
  by (simp add: get_existing_items_def print_def existing_entry_def dict_get_def
      convert_struct_time_to_datetime_def mktime_def fromtimestamp_def local_time_def
      DATETIME_MIN_def DATETIME_MAX_def)

section \<open>What the config loader returns\<close>

lemma rstrip_decomp: "u = rstrip u @ rev (takeWhile is_space (rev u))"
proof -
  have "u = rev (takeWhile is_space (rev u) @ dropWhile is_space (rev u))"
    by (simp only: takeWhile_dropWhile_id rev_rev_ident)
  also have "\<dots> = rev (dropWhile is_space (rev u)) @ rev (takeWhile is_space (rev u))"
    by (simp only: rev_append)
  finally show ?thesis by (simp only: rstrip_def)
qed

lemma lstrip_fixed: "(s = [] \<or> \<not> is_space (hd s)) \<Longrightarrow> lstrip s = s"
  by (cases s) (auto simp: lstrip_def)

lemma lstrip_head: "lstrip s = [] \<or> \<not> is_space (hd (lstrip s))"
  unfolding lstrip_def using hd_dropWhile [of is_space s] by blast

lemma rstrip_head: "rstrip u \<noteq> [] \<Longrightarrow> hd (rstrip u) = hd u"
  using rstrip_decomp [of u] by (metis hd_append2)

lemma rstrip_Nil: "rstrip [] = []"
  by (simp add: rstrip_def)

lemma lstrip_rstrip_lstrip: "lstrip (rstrip (lstrip s)) = rstrip (lstrip s)"
proof (cases "rstrip (lstrip s) = []")
  case True
  then show ?thesis by (simp add: lstrip_def)
next
  case False
  then have "hd (rstrip (lstrip s)) = hd (lstrip s)" by (rule rstrip_head)
  moreover from False have "lstrip s \<noteq> []" using rstrip_Nil by auto
  ultimately have "\<not> is_space (hd (rstrip (lstrip s)))"
    using lstrip_head [of s] by simp
  then show ?thesis by (simp add: lstrip_fixed)
qed

lemma rstrip_idem: "rstrip (rstrip u) = rstrip u"
  by (simp add: rstrip_def)

lemma strip_idem: "strip (strip s) = strip s"
  by (simp add: strip_def lstrip_rstrip_lstrip rstrip_idem)

text \<open>
  Claim C6, as amended. For every file name, variable name and world, every element that
  \<open>load_config\<close> returns is non-empty and equal to itself stripped. When the list comes
  from the local file (the variable gives nothing), every element is the stripped form of
  a line of the file that does not begin with \<open>#\<close>. Lines taken from the environment
  variable are not tested for the comment marker.
\<close>

theorem load_config_elements:
  "(\<forall>x \<in> set (fst (load_config filename env_var_name w)). x \<noteq> [] \<and> strip x = x) \<and>
   (env_content w env_var_name = None \<longrightarrow>
      (\<forall>x \<in> set (fst (load_config filename env_var_name w)).
         \<exists>line \<in> set (case files w filename of Some f \<Rightarrow> f | None \<Rightarrow> []).
            x = strip line \<and> \<not> startswith line ''#''))"
proof (cases "env_content w env_var_name")
  case None
  show ?thesis
  proof (cases "files w filename")
    case N2: None
    with None show ?thesis by (simp add: load_config_def)
  next
    case (Some f)
    with None have r: "fst (load_config filename env_var_name w) =
        map strip (filter (\<lambda>line. strip line \<noteq> [] \<and> \<not> startswith line ''#'') f)"
      by (simp add: load_config_def)
    show ?thesis
      unfolding r using None Some
      by (auto simp: strip_idem)
  qed
next
  case (Some content)
  then have r: "fst (load_config filename env_var_name w) =
      map strip (filter (\<lambda>line. strip line \<noteq> [])
        (split content (if CHR 0x0A \<in> set content then [CHR 0x0A] else '';'')))"
    by (simp add: load_config_def Let_def)
  show ?thesis
    unfolding r using Some
    by (auto simp: strip_idem)
qed

theorem load_config_elements_witness:
  "env_content
      \<lparr>environ = Map.empty,
       files = [''keywords.dat'' \<mapsto> [''# queries'' @ [CHR 0x0A], ''brain AND tumor'' @ [CHR 0x0A],
                                       [CHR 0x0A], ''  seg  '' @ [CHR 0x0A]]],
       output_file = None :: feed option, remote = (\<lambda>url k. Raises []), now = 0, utc_offset = 0, dst = (\<lambda>t. 0),
       requests = [], stdout = []\<rparr> (Some ''RSS_KEYWORDS'') = None \<and>
   fst (load_config ''keywords.dat'' (Some ''RSS_KEYWORDS'')
      \<lparr>environ = Map.empty,
       files = [''keywords.dat'' \<mapsto> [''# queries'' @ [CHR 0x0A], ''brain AND tumor'' @ [CHR 0x0A],
                                       [CHR 0x0A], ''  seg  '' @ [CHR 0x0A]]],
       output_file = None :: feed option, remote = (\<lambda>url k. Raises []), now = 0, utc_offset = 0, dst = (\<lambda>t. 0),
       requests = [], stdout = []\<rparr>) = [''brain AND tumor'', ''seg''] \<and>
   list_all (\<lambda>x. x \<noteq> [] \<and> strip x = x)
     (fst (load_config ''keywords.dat'' (Some ''RSS_KEYWORDS'')
      \<lparr>environ = Map.empty,
       files = [''keywords.dat'' \<mapsto> [''# queries'' @ [CHR 0x0A], ''brain AND tumor'' @ [CHR 0x0A],
                                       [CHR 0x0A], ''  seg  '' @ [CHR 0x0A]]],
       output_file = None :: feed option, remote = (\<lambda>url k. Raises []), now = 0, utc_offset = 0, dst = (\<lambda>t. 0),
       requests = [], stdout = []\<rparr>))"
proof (intro conjI)
  show "env_content
      \<lparr>environ = Map.empty,
       files = [''keywords.dat'' \<mapsto> [''# queries'' @ [CHR 0x0A], ''brain AND tumor'' @ [CHR 0x0A],
                                       [CHR 0x0A], ''  seg  '' @ [CHR 0x0A]]],
       output_file = None :: feed option, remote = (\<lambda>url k. Raises []), now = 0, utc_offset = 0, dst = (\<lambda>t. 0),
       requests = [], stdout = []\<rparr> (Some ''RSS_KEYWORDS'') = None"
    by (simp add: env_content_def)
next
  show "fst (load_config ''keywords.dat'' (Some ''RSS_KEYWORDS'')
      \<lparr>environ = Map.empty,
       files = [''keywords.dat'' \<mapsto> [''# queries'' @ [CHR 0x0A], ''brain AND tumor'' @ [CHR 0x0A],
                                       [CHR 0x0A], ''  seg  '' @ [CHR 0x0A]]],
       output_file = None :: feed option, remote = (\<lambda>url k. Raises []), now = 0, utc_offset = 0, dst = (\<lambda>t. 0),
       requests = [], stdout = []\<rparr>) = [''brain AND tumor'', ''seg'']"
    by code_simp
next
  show "list_all (\<lambda>x. x \<noteq> [] \<and> strip x = x)
     (fst (load_config ''keywords.dat'' (Some ''RSS_KEYWORDS'')
      \<lparr>environ = Map.empty,
       files = [''keywords.dat'' \<mapsto> [''# queries'' @ [CHR 0x0A], ''brain AND tumor'' @ [CHR 0x0A],
                                       [CHR 0x0A], ''  seg  '' @ [CHR 0x0A]]],
       output_file = None :: feed option, remote = (\<lambda>url k. Raises []), now = 0, utc_offset = 0, dst = (\<lambda>t. 0),
       requests = [], stdout = []\<rparr>))"
    unfolding list_all_iff by (rule conjunct1 [OF load_config_elements])
qed

text \<open>
  The claim as first stated promised that no element begins with \<open>#\<close>. The branch
  that reads the environment variable only strips and drops blank pieces, so a piece that
  begins with \<open>#\<close> is returned.
\<close>

theorem load_config_comment_counterexample:
  "fst (load_config ''keywords.dat'' (Some ''RSS_KEYWORDS'')
      \<lparr>environ = [''RSS_KEYWORDS'' \<mapsto> ''#old query;brain''], files = Map.empty,
       output_file = None :: feed option, remote = (\<lambda>url k. Raises []), now = 0, utc_offset = 0, dst = (\<lambda>t. 0),
       requests = [], stdout = []\<rparr>) = [''#old query'', ''brain''] \<and>
   startswith ''#old query'' ''#''"
  by code_simp

section \<open>An empty configuration stops the run\<close>

text \<open>\<open>load_config\<close> changes nothing in the world but the printed lines, and does not
  read them.\<close>

lemma load_config_world:
  "\<exists>ms. snd (load_config filename env_var_name w) = w\<lparr>stdout := stdout w @ ms\<rparr> \<and>
        set ms \<subseteq> range LoadingEnv \<union> range LoadingFile"
proof (cases "env_content w env_var_name")
  case None
  show ?thesis
  proof (cases "files w filename")
    case N2: None
    with None have "snd (load_config filename env_var_name w) = w\<lparr>stdout := stdout w @ []\<rparr>"
      by (simp add: load_config_def)
    then show ?thesis by (intro exI [of _ "[]"]) simp
  next
    case (Some f)
    with None have "snd (load_config filename env_var_name w)
        = w\<lparr>stdout := stdout w @ [LoadingFile filename]\<rparr>"
      by (simp add: load_config_def print_def)
    then show ?thesis by (intro exI [of _ "[LoadingFile filename]"]) simp
  qed
next
  case (Some content)
  then have "snd (load_config filename env_var_name w)
      = w\<lparr>stdout := stdout w @ [LoadingEnv (the env_var_name)]\<rparr>"
    by (simp add: load_config_def print_def Let_def)
  then show ?thesis by (intro exI [of _ "[LoadingEnv (the env_var_name)]"]) simp
qed

lemma env_content_stdout: "env_content (w\<lparr>stdout := s\<rparr>) v = env_content w v"
  by (auto simp: env_content_def split: option.splits)

lemma load_config_stdout:
  "fst (load_config filename env_var_name (w\<lparr>stdout := s\<rparr>)) = fst (load_config filename env_var_name w)"
  by (simp add: load_config_def env_content_stdout Let_def split: option.splits)

text \<open>
  Claim C5. If the loaded list of journals or the loaded list of keywords is empty, \<open>main\<close>
  returns after printing the configuration error: the world is the one it started in but
  for the printed lines, which are those of the two \<open>load_config\<close> calls and the error.
  So no request to a feed was made, nothing was read from or written to the output file,
  and the output file is unchanged.
\<close>

theorem main_empty_config:
  assumes "fst (load_config ''journals.dat'' (Some ''RSS_JOURNALS'') w) = [] \<or>
           fst (load_config ''keywords.dat'' (Some ''RSS_KEYWORDS'') w) = []"
  shows "(\<exists>ms. main rss fp w = w\<lparr>stdout := stdout w @ ms @ [ErrorConfig]\<rparr> \<and>
               set ms \<subseteq> range LoadingEnv \<union> range LoadingFile) \<and>
         output_file (main rss fp w) = output_file w \<and>
         requests (main rss fp w) = requests w"
proof -
  obtain urls w1 where l1: "load_config ''journals.dat'' (Some ''RSS_JOURNALS'') w = (urls, w1)"
    by (cases "load_config ''journals.dat'' (Some ''RSS_JOURNALS'') w")
  obtain qs w2 where l2: "load_config ''keywords.dat'' (Some ''RSS_KEYWORDS'') w1 = (qs, w2)"
    by (cases "load_config ''keywords.dat'' (Some ''RSS_KEYWORDS'') w1")
  obtain ms1 where m1: "w1 = w\<lparr>stdout := stdout w @ ms1\<rparr>"
      "set ms1 \<subseteq> range LoadingEnv \<union> range LoadingFile"
    using load_config_world [of "''journals.dat''" "Some ''RSS_JOURNALS''" w] l1 by auto
  obtain ms2 where m2: "w2 = w1\<lparr>stdout := stdout w1 @ ms2\<rparr>"
      "set ms2 \<subseteq> range LoadingEnv \<union> range LoadingFile"
    using load_config_world [of "''keywords.dat''" "Some ''RSS_KEYWORDS''" w1] l2 by auto
  have "qs = fst (load_config ''keywords.dat'' (Some ''RSS_KEYWORDS'') w)"
  proof -
    have "qs = fst (load_config ''keywords.dat'' (Some ''RSS_KEYWORDS'') w1)"
      by (simp add: l2)
    then show ?thesis
      unfolding m1(1) by (simp only: load_config_stdout)
  qed
  with assms l1 have empty: "urls = [] \<or> qs = []" by auto
  have "main rss fp w = print ErrorConfig w2"
    using empty by (auto simp: main_def l1 l2)
  also have "\<dots> = w\<lparr>stdout := stdout w @ (ms1 @ ms2) @ [ErrorConfig]\<rparr>"
    by (simp add: print_def m1 m2)
  finally have eq: "main rss fp w = w\<lparr>stdout := stdout w @ (ms1 @ ms2) @ [ErrorConfig]\<rparr>" .
  have "set (ms1 @ ms2) \<subseteq> range LoadingEnv \<union> range LoadingFile"
    using m1(2) m2(2) by simp
  with eq have "\<exists>ms. main rss fp w = w\<lparr>stdout := stdout w @ ms @ [ErrorConfig]\<rparr> \<and>
               set ms \<subseteq> range LoadingEnv \<union> range LoadingFile"
    by blast
  moreover from eq have "output_file (main rss fp w) = output_file w"
    "requests (main rss fp w) = requests w" by simp_all
  ultimately show ?thesis by blast
qed

theorem main_empty_config_witness:
  "fst (load_config ''keywords.dat'' (Some ''RSS_KEYWORDS'')
      \<lparr>environ = Map.empty,
       files = [''journals.dat'' \<mapsto> [''http://example.org/feed'' @ [CHR 0x0A]],
                ''keywords.dat'' \<mapsto> []],
       output_file = Some ''previous output'', remote = (\<lambda>url k. Raises []), now = 0, utc_offset = 0, dst = (\<lambda>t. 0),
       requests = [], stdout = []\<rparr>) = [] \<and>
   output_file (main (\<lambda>f. ''new output'') (\<lambda>c. Raises [])
      \<lparr>environ = Map.empty,
       files = [''journals.dat'' \<mapsto> [''http://example.org/feed'' @ [CHR 0x0A]],
                ''keywords.dat'' \<mapsto> []],
       output_file = Some ''previous output'', remote = (\<lambda>url k. Raises []), now = 0, utc_offset = 0, dst = (\<lambda>t. 0),
       requests = [], stdout = []\<rparr>) = Some ''previous output'' \<and>
   requests (main (\<lambda>f. ''new output'') (\<lambda>c. Raises [])
      \<lparr>environ = Map.empty,
       files = [''journals.dat'' \<mapsto> [''http://example.org/feed'' @ [CHR 0x0A]],
                ''keywords.dat'' \<mapsto> []],
       output_file = Some ''previous output'', remote = (\<lambda>url k. Raises []), now = 0, utc_offset = 0, dst = (\<lambda>t. 0),
       requests = [], stdout = []\<rparr>) = []"
proof -
  have h: "fst (load_config ''keywords.dat'' (Some ''RSS_KEYWORDS'')
      \<lparr>environ = Map.empty,
       files = [''journals.dat'' \<mapsto> [''http://example.org/feed'' @ [CHR 0x0A]],
                ''keywords.dat'' \<mapsto> []],
       output_file = Some ''previous output'', remote = (\<lambda>url k. Raises []), now = 0, utc_offset = 0, dst = (\<lambda>t. 0),
       requests = [], stdout = []\<rparr>) = []"
    by code_simp
  from h main_empty_config [OF disjI2 [OF h], of "\<lambda>f. ''new output''" "\<lambda>c. Raises []"]
  show ?thesis by simp
qed

section \<open>What a run leaves unchanged\<close>

lemma same_inputs_refl: "same_inputs w w"
  by (simp add: same_inputs_def)

lemma same_inputs_trans: "same_inputs w w1 \<Longrightarrow> same_inputs w1 w2 \<Longrightarrow> same_inputs w w2"
  by (simp add: same_inputs_def)

lemma same_inputs_print: "same_inputs w (print m w)"
  by (simp add: same_inputs_def print_def)

lemma same_inputs_stdout: "same_inputs w (w\<lparr>stdout := s\<rparr>)"
  by (simp add: same_inputs_def)

lemma load_config_same: "same_inputs w (snd (load_config filename env_var_name w))"
  using load_config_world [of filename env_var_name w]
  by (auto simp: same_inputs_def)

lemma env_content_cong:
  assumes "environ w' = environ w"
  shows "env_content w' v = env_content w v"
  unfolding env_content_def assms by (rule refl)

lemma load_config_cong:
  assumes "same_inputs w w'"
  shows "fst (load_config filename env_var_name w') = fst (load_config filename env_var_name w)"
proof -
  have e: "env_content w' env_var_name = env_content w env_var_name"
    using assms by (intro env_content_cong) (simp add: same_inputs_def)
  have f: "files w' filename = files w filename"
    using assms by (simp add: same_inputs_def)
  show ?thesis
  proof (cases "env_content w env_var_name")
    case (Some content)
    then show ?thesis by (simp add: load_config_def e Let_def)
  next
    case None
    then show ?thesis
      by (cases "files w filename") (simp_all add: load_config_def e f)
  qed
qed

lemma existing_entry_same:
  assumes "same_inputs w w'"
  shows "existing_entry w' = existing_entry w"
proof (rule ext)
  fix e
  have n: "now w' = now w" and u: "utc_offset w' = utc_offset w" and d: "dst w' = dst w"
    using assms by (simp_all add: same_inputs_def)
  show "existing_entry w' e = existing_entry w e"
    unfolding existing_entry_def convert_struct_time_to_datetime_def fromtimestamp_def
      mktime_def local_time_def n u d by (rule refl)
qed

lemma existing_entry_print: "existing_entry (print m w) = existing_entry w"
  by (rule existing_entry_same) (rule same_inputs_print)

lemma get_existing_items_same: "same_inputs w (snd (get_existing_items fp w))"
  by (simp add: get_existing_items_def same_inputs_def print_def Let_def
      split: option.splits fp_outcome.splits sum.splits)

lemma get_existing_items_fst:
  "fst (get_existing_items fp w) =
     (case output_file w of
        None \<Rightarrow> []
      | Some content \<Rightarrow>
          (case fp content of
             Raises e \<Rightarrow> []
           | Parsed feed \<Rightarrow>
               (case collect (existing_entry w) (entries feed) of
                  Inl e \<Rightarrow> []
                | Inr existing \<Rightarrow> existing)))"
  by (simp add: get_existing_items_def Let_def existing_entry_print
      split: option.splits fp_outcome.splits sum.splits)

lemma get_existing_items_cong:
  assumes "same_inputs w w'"
  shows "fst (get_existing_items fp w') = fst (get_existing_items fp w)"
proof -
  have ee: "existing_entry w' = existing_entry w"
    using assms by (rule existing_entry_same)
  have oo: "output_file w' = output_file w" using assms by (simp add: same_inputs_def)
  show ?thesis unfolding get_existing_items_fst ee oo by (rule refl)
qed

lemma parse_rss_loop_same: "same_inputs w (snd (parse_rss_loop url n w))"
proof (induction n arbitrary: w)
  case 0
  show ?case by (simp add: same_inputs_refl)
next
  case (Suc n)
  have retry: "same_inputs w
      (snd (parse_rss_loop url n (print (ErrorParsing url e) (w\<lparr>requests := requests w @ [url]\<rparr>))))"
    for e
  proof -
    have "same_inputs w (print (ErrorParsing url e) (w\<lparr>requests := requests w @ [url]\<rparr>))"
      by (simp add: same_inputs_def print_def)
    from same_inputs_trans [OF this Suc.IH] show ?thesis .
  qed
  show ?case
  proof (cases "remote w url (length (requests w))")
    case (Raises e)
    with retry [of e] show ?thesis by (simp add: Let_def)
  next
    case (Parsed pf)
    show ?thesis
    proof (cases "collect (fetched_entry (dict_get (fp_title pf) ''Unknown Journal'')
                     (w\<lparr>requests := requests w @ [url]\<rparr>)) (entries pf)")
      case (Inl e)
      with Parsed retry [of e] show ?thesis by (simp add: Let_def)
    next
      case (Inr fetched)
      with Parsed show ?thesis by (simp add: same_inputs_def Let_def)
    qed
  qed
qed

lemma parse_rss_same: "same_inputs w (snd (parse_rss url w))"
  unfolding parse_rss_def
  by (rule same_inputs_trans [OF same_inputs_print parse_rss_loop_same])

section \<open>The aggregator\<close>

lemma entry_loop_same:
  "entry_loop qs es (seen, all, n, w) = (seen', all', n', w') \<Longrightarrow> same_inputs w w'"
proof (induction es arbitrary: seen all n w)
  case Nil
  then show ?case by (simp add: same_inputs_refl)
next
  case (Cons e es)
  show ?case
  proof (cases "id' e \<notin> seen \<and> match_entry e qs")
    case True
    with Cons.prems have "entry_loop qs es (insert (id' e) seen, all @ [e], n + 1,
        print (MatchFound (take 50 (title e))) w) = (seen', all', n', w')"
      by simp
    from same_inputs_trans [OF same_inputs_print Cons.IH [OF this]] show ?thesis .
  next
    case False
    with Cons.prems have "entry_loop qs es (seen, all, n, w) = (seen', all', n', w')"
      by (auto split: if_splits)
    then show ?thesis by (rule Cons.IH)
  qed
qed

lemma entry_loop_inv:
  "entry_loop qs es (seen, all, n, w) = (seen', all', n', w') \<Longrightarrow>
   seen = set (map id' all) \<Longrightarrow> distinct (map id' all) \<Longrightarrow>
   seen' = set (map id' all') \<and> distinct (map id' all')"
proof (induction es arbitrary: seen all n w)
  case Nil
  then show ?case by auto
next
  case (Cons e es)
  show ?case
  proof (cases "id' e \<notin> seen \<and> match_entry e qs")
    case True
    with Cons.prems(1) have step: "entry_loop qs es (insert (id' e) seen, all @ [e], n + 1,
        print (MatchFound (take 50 (title e))) w) = (seen', all', n', w')"
      by simp
    have "insert (id' e) seen = set (map id' (all @ [e]))"
      using Cons.prems(2) by simp
    moreover have "distinct (map id' (all @ [e]))"
      using Cons.prems(2,3) True by simp
    ultimately show ?thesis by (rule Cons.IH [OF step])
  next
    case False
    with Cons.prems(1) have "entry_loop qs es (seen, all, n, w) = (seen', all', n', w')"
      by (auto split: if_splits)
    from Cons.IH [OF this Cons.prems(2,3)] show ?thesis .
  qed
qed

lemma url_loop_same:
  "url_loop qs urls (seen, all, n, w) = (seen', all', n', w') \<Longrightarrow> same_inputs w w'"
proof (induction urls arbitrary: seen all n w)
  case Nil
  then show ?case by (simp add: same_inputs_refl)
next
  case (Cons url urls)
  obtain fetched w1 where p: "parse_rss url w = (fetched, w1)"
    by (cases "parse_rss url w")
  obtain s1 a1 n1 w2 where el: "entry_loop qs fetched (seen, all, n, w1) = (s1, a1, n1, w2)"
    by (cases "entry_loop qs fetched (seen, all, n, w1)")
  from Cons.prems have rest: "url_loop qs urls (s1, a1, n1, w2) = (seen', all', n', w')"
    by (simp add: p el)
  have "same_inputs w w1" using parse_rss_same [of w url] by (simp add: p)
  from same_inputs_trans [OF same_inputs_trans [OF this entry_loop_same [OF el]] Cons.IH [OF rest]]
  show ?case .
qed

lemma url_loop_inv:
  "url_loop qs urls (seen, all, n, w) = (seen', all', n', w') \<Longrightarrow>
   seen = set (map id' all) \<Longrightarrow> distinct (map id' all) \<Longrightarrow>
   seen' = set (map id' all') \<and> distinct (map id' all')"
proof (induction urls arbitrary: seen all n w)
  case Nil
  then show ?case by auto
next
  case (Cons url urls)
  obtain fetched w1 where p: "parse_rss url w = (fetched, w1)"
    by (cases "parse_rss url w")
  obtain s1 a1 n1 w2 where el: "entry_loop qs fetched (seen, all, n, w1) = (s1, a1, n1, w2)"
    by (cases "entry_loop qs fetched (seen, all, n, w1)")
  from Cons.prems(1) have rest: "url_loop qs urls (s1, a1, n1, w2) = (seen', all', n', w')"
    by (simp add: p el)
  from entry_loop_inv [OF el Cons.prems(2,3)]
  have "s1 = set (map id' a1)" "distinct (map id' a1)" by simp_all
  from Cons.IH [OF rest this] show ?case .
qed

section \<open>A run with a usable configuration\<close>

lemma main_run:
  assumes "fst (load_config ''journals.dat'' (Some ''RSS_JOURNALS'') w) \<noteq> []"
      and "fst (load_config ''keywords.dat'' (Some ''RSS_KEYWORDS'') w) \<noteq> []"
  shows "\<exists>w3 seen all n w4.
           same_inputs w w3 \<and>
           url_loop (fst (load_config ''keywords.dat'' (Some ''RSS_KEYWORDS'') w))
                    (fst (load_config ''journals.dat'' (Some ''RSS_JOURNALS'') w))
                    (set (map id' (fst (get_existing_items fp w))),
                     fst (get_existing_items fp w), 0, w3) = (seen, all, n, w4) \<and>
           main rss fp w = generate_rss_xml rss all (print (Added n) w4)"
proof -
  obtain urls w1 where l1: "load_config ''journals.dat'' (Some ''RSS_JOURNALS'') w = (urls, w1)"
    by (cases "load_config ''journals.dat'' (Some ''RSS_JOURNALS'') w")
  obtain qs w2 where l2: "load_config ''keywords.dat'' (Some ''RSS_KEYWORDS'') w1 = (qs, w2)"
    by (cases "load_config ''keywords.dat'' (Some ''RSS_KEYWORDS'') w1")
  obtain ex w3 where g: "get_existing_items fp w2 = (ex, w3)"
    by (cases "get_existing_items fp w2")
  obtain seen all n w4 where u:
    "url_loop qs urls (set (map id' ex), ex, 0, print StartingFetch w3) = (seen, all, n, w4)"
    by (cases "url_loop qs urls (set (map id' ex), ex, 0, print StartingFetch w3)") auto
  have s1: "same_inputs w w1" using load_config_same [of w "''journals.dat''" "Some ''RSS_JOURNALS''"] by (simp add: l1)
  have s2: "same_inputs w1 w2" using load_config_same [of w1 "''keywords.dat''" "Some ''RSS_KEYWORDS''"] by (simp add: l2)
  have s3: "same_inputs w2 w3" using get_existing_items_same [of w2 fp] by (simp add: g)
  have s12: "same_inputs w w2" by (rule same_inputs_trans [OF s1 s2])
  have s: "same_inputs w (print StartingFetch w3)"
    by (rule same_inputs_trans [OF same_inputs_trans [OF s12 s3] same_inputs_print])
  have urls: "fst (load_config ''journals.dat'' (Some ''RSS_JOURNALS'') w) = urls"
    unfolding l1 by simp
  have "fst (load_config ''keywords.dat'' (Some ''RSS_KEYWORDS'') w1) = qs"
    unfolding l2 by simp
  then have qs: "fst (load_config ''keywords.dat'' (Some ''RSS_KEYWORDS'') w) = qs"
    unfolding load_config_cong [OF s1] .
  have "fst (get_existing_items fp w2) = ex"
    unfolding g by simp
  then have ex: "fst (get_existing_items fp w) = ex"
    unfolding get_existing_items_cong [OF s12] .
  from assms have ne: "urls \<noteq> []" "qs \<noteq> []"
    unfolding urls qs by simp_all
  have "main rss fp w = generate_rss_xml rss all (print (Added n) w4)"
    using ne u by (simp add: main_def l1 l2 g)
  with s u show ?thesis
    unfolding urls qs ex by blast
qed

section \<open>Identifiers in the merged output\<close>

lemma kept_items_distinct:
  assumes "distinct (map id' xs)"
  shows "distinct (map id' (kept_items xs))"
proof -
  have "mset (map id' (sort_by_pub_date xs)) = mset (map id' xs)"
    by (simp add: mset_sort_by_pub_date)
  then have "distinct (map id' (sort_by_pub_date xs))"
    using assms mset_eq_imp_distinct_iff by blast
  then have "distinct (take MAX_ITEMS (map id' (sort_by_pub_date xs)))"
    by (rule distinct_take)
  then show ?thesis by (simp add: kept_items_def take_map)
qed

lemma guid_rss_item: "map guid (map rss_item ks) = map id' ks"
  by (simp add: rss_item_fields)

lemma output_file_generate:
  "output_file (generate_rss_xml rss es w) = Some (rss (build_feed es w))"
  by (simp add: generate_rss_xml_def Let_def print_def)

text \<open>
  Claim C2, as amended. When the run has a usable configuration and the entries read from
  the prior output file have pairwise distinct ids, the file that \<open>main\<close> writes is the
  serialization of a feed no two items of which share a guid (the entry's id). A fetched
  entry whose id is in \<open>seen_ids\<close>, that is the id of an old entry or of a new entry
  already accepted, is skipped before the queries are looked at.
\<close>

theorem merged_ids_distinct:
  assumes "fst (load_config ''journals.dat'' (Some ''RSS_JOURNALS'') w) \<noteq> []"
      and "fst (load_config ''keywords.dat'' (Some ''RSS_KEYWORDS'') w) \<noteq> []"
      and "distinct (map id' (fst (get_existing_items fp w)))"
  shows "(\<exists>feed. output_file (main rss fp w) = Some (rss feed) \<and>
                 distinct (map guid (items feed))) \<and>
         (id' e \<in> seen \<longrightarrow>
            entry_loop queries (e # rest) (seen, all, n, w') =
            entry_loop queries rest (seen, all, n, w'))"
proof
  from main_run [OF assms(1,2), of fp rss]
  obtain w3 seen1 all1 n1 w4 where
    u: "url_loop (fst (load_config ''keywords.dat'' (Some ''RSS_KEYWORDS'') w))
                    (fst (load_config ''journals.dat'' (Some ''RSS_JOURNALS'') w))
                    (set (map id' (fst (get_existing_items fp w))),
                     fst (get_existing_items fp w), 0, w3) = (seen1, all1, n1, w4)"
    and m: "main rss fp w = generate_rss_xml rss all1 (print (Added n1) w4)"
    by blast
  from url_loop_inv [OF u refl assms(3)] have d: "distinct (map id' all1)" by simp
  have "distinct (map guid (items (build_feed all1 (print (Added n1) w4))))"
    unfolding items_build_feed guid_rss_item using d by (rule kept_items_distinct)
  then show "\<exists>feed. output_file (main rss fp w) = Some (rss feed) \<and>
                 distinct (map guid (items feed))"
    unfolding m output_file_generate by blast
next
  show "id' e \<in> seen \<longrightarrow>
            entry_loop queries (e # rest) (seen, all, n, w') =
            entry_loop queries rest (seen, all, n, w')"
    by simp
qed


theorem merged_ids_distinct_witness:
  "fst (load_config ''journals.dat'' (Some ''RSS_JOURNALS'')
         (main (\<lambda>f. f) read_back example_world)) \<noteq> [] \<and>
   fst (load_config ''keywords.dat'' (Some ''RSS_KEYWORDS'')
         (main (\<lambda>f. f) read_back example_world)) \<noteq> [] \<and>
   map id' (fst (get_existing_items read_back (main (\<lambda>f. f) read_back example_world))) = [''i1''] \<and>
   (\<exists>feed. output_file (main (\<lambda>f. f) read_back (main (\<lambda>f. f) read_back example_world))
              = Some feed \<and> distinct (map guid (items feed)))"
proof -
  have h1: "fst (load_config ''journals.dat'' (Some ''RSS_JOURNALS'')
         (main (\<lambda>f. f) read_back example_world)) \<noteq> []"
    by code_simp
  have h2: "fst (load_config ''keywords.dat'' (Some ''RSS_KEYWORDS'')
         (main (\<lambda>f. f) read_back example_world)) \<noteq> []"
    by code_simp
  have h3: "map id' (fst (get_existing_items read_back (main (\<lambda>f. f) read_back example_world)))
              = [''i1'']"
    by code_simp
  then have h4: "distinct (map id'
      (fst (get_existing_items read_back (main (\<lambda>f. f) read_back example_world))))"
    by simp
  from h1 h2 h3 conjunct1 [OF merged_ids_distinct [OF h1 h2 h4, of "\<lambda>f. f"]]
  show ?thesis by blast
qed

text \<open>
  Without the condition on the old entries the claim fails: they are copied into the
  aggregate as they are, and two items of the prior file with the same guid are both in
  the new output.
\<close>

theorem merged_ids_counterexample:
  "map guid (items (the (output_file (main (\<lambda>f. f) read_back
     (example_world\<lparr>output_file := Some
        \<lparr>feed_title = ''t'', feed_link = ''l'', feed_description = ''d'', language = ''en-US'',
         lastBuildDate = 0,
         items = [\<lparr>item_title = ''[Nature] Old one'', item_link = ''http://n/8'',
                   description = ''a'', author = ''Nature'', guid = ''i9'', pubDate = 5\<rparr>,
                  \<lparr>item_title = ''[Nature] Old two'', item_link = ''http://n/9'',
                   description = ''b'', author = ''Nature'', guid = ''i9'', pubDate = 4\<rparr>]\<rparr>\<rparr>)))))
   = [''i1'', ''i9'', ''i9'']"
  by code_simp

section \<open>Running the program again\<close>

text \<open>
  Claim C9 says that a second run, with nothing new in the remote feeds, the same
  configuration and the first run's output as prior output, writes the same feed apart
  from \<open>lastBuildDate\<close>. The program does read the old items back and write them again
  without touching title, summary or journal, but each pass through
  \<open>convert_struct_time_to_datetime\<close> reads the parser's UTC fields as local standard time
  and shows the instant in local time: where daylight saving time is in force the date
  comes out one hour later. In New York, an entry dated 2024-07-01 10:00:00 is written
  with 11:00:00 (1719831600) by the first run and with 12:00:00 (1719835200) by the
  second, which fetched nothing new; the two feeds differ in more than \<open>lastBuildDate\<close>.
\<close>

theorem rerun_shifts_pub_date:
  "map guid (items (the (output_file (main (\<lambda>f. f) read_back summer_world)))) = [''i1''] \<and>
   map pubDate (items (the (output_file (main (\<lambda>f. f) read_back summer_world))))
     = [1719831600] \<and>
   map guid (items (the (output_file
      (main (\<lambda>f. f) read_back (main (\<lambda>f. f) read_back summer_world))))) = [''i1''] \<and>
   map pubDate (items (the (output_file
      (main (\<lambda>f. f) read_back (main (\<lambda>f. f) read_back summer_world)))))
     = [1719835200] \<and>
   items (the (output_file (main (\<lambda>f. f) read_back (main (\<lambda>f. f) read_back summer_world))))
     \<noteq> items (the (output_file (main (\<lambda>f. f) read_back summer_world)))"
  by code_simp

end
